theory Spec2Isabelle
  imports Main
begin

section \<open>Python values and exceptions\<close>

text \<open>
  The exceptions the modelled code raises. \<open>TypeError\<close> and \<open>ValueError\<close> are
  Python's built-in argument errors, \<open>PIWebAPIError\<close> is the SDK's own error class,
  \<open>Exception\<close> is the bare base class raised by the OMF example script, and
  \<open>OtherError\<close> stands for any exception that is not a \<open>PIWebAPIError\<close>. The last
  three are built-in exceptions of Python.
\<close>

datatype exn =
    TypeError string
  | ValueError string
  | PIWebAPIError string
  | Exception string
  | OtherError string
  | ZeroDivisionError string
  | KeyError string
  | TimeoutError string

section \<open>The time codec: \<open>BaseController._format_time\<close>\<close>

subsection \<open>\<open>datetime.isoformat\<close>\<close>

text \<open>
  A \<open>datetime\<close> object: its calendar fields and the result of \<open>utcoffset()\<close>, which is
  \<open>None\<close> for a naive object and a \<open>timedelta\<close> (here in microseconds) for an aware
  one.
\<close>

record datetime =
  year :: nat
  month :: nat
  day :: nat
  hour :: nat
  minute :: nat
  second :: nat
  microsecond :: nat
  utcoffset :: "int option"

definition digit :: "nat \<Rightarrow> char" where
  "digit n = char_of (48 + n)"

fun dec :: "nat \<Rightarrow> string" where
  "dec n = (if n < 10 then [digit n] else dec (n div 10) @ [digit (n mod 10)])"

declare dec.simps [simp del]

text \<open>The format \<open>%0wd\<close> on a natural number: decimal digits, zero-padded to width w.\<close>

definition fmt_d :: "nat \<Rightarrow> nat \<Rightarrow> string" where
  "fmt_d w n = replicate (w - length (dec n)) (CHR ''0'') @ dec n"

text \<open>\<open>datetime._format_time\<close> with \<open>timespec='auto'\<close>.\<close>

definition format_clock :: "nat \<Rightarrow> nat \<Rightarrow> nat \<Rightarrow> nat \<Rightarrow> string" where
  "format_clock hh mm ss us =
     (if us \<noteq> 0
      then fmt_d 2 hh @ '':'' @ fmt_d 2 mm @ '':'' @ fmt_d 2 ss @ ''.'' @ fmt_d 6 us
      else fmt_d 2 hh @ '':'' @ fmt_d 2 mm @ '':'' @ fmt_d 2 ss)"

text \<open>
  \<open>datetime._format_offset\<close>: empty for \<open>None\<close>; otherwise the sign, hours and minutes,
  then seconds and microseconds only when they are not zero.
\<close>

definition format_offset :: "int option \<Rightarrow> string" where
  "format_offset off =
     (case off of
        None \<Rightarrow> []
      | Some d \<Rightarrow>
          (let sign = (if d < 0 then ''-'' else ''+'');
               a = \<bar>d\<bar>;
               hh = a div 3600000000;
               r = a mod 3600000000;
               mm = r div 60000000;
               ss = r mod 60000000
           in sign @ fmt_d 2 (nat hh) @ '':'' @ fmt_d 2 (nat mm) @
              (if ss \<noteq> 0
               then '':'' @ fmt_d 2 (nat (ss div 1000000)) @
                    (if ss mod 1000000 \<noteq> 0
                     then ''.'' @ fmt_d 6 (nat (ss mod 1000000)) else [])
               else [])))"

text \<open>The date and time part of \<open>isoformat()\<close>, with the separator \<open>T\<close>.\<close>

definition iso_local :: "datetime \<Rightarrow> string" where
  "iso_local dt =
     fmt_d 4 (year dt) @ ''-'' @ fmt_d 2 (month dt) @ ''-'' @ fmt_d 2 (day dt) @ ''T'' @
     format_clock (hour dt) (minute dt) (second dt) (microsecond dt)"

definition isoformat :: "datetime \<Rightarrow> string" where
  "isoformat dt = iso_local dt @ format_offset (utcoffset dt)"

subsection \<open>The codec\<close>

text \<open>
  The argument of \<open>_format_time\<close> is dynamically typed: \<open>None\<close>, a \<open>str\<close>, a
  \<open>datetime\<close>, or a value of any other class, of which only the class name matters.
\<close>

datatype time_value =
    TNone
  | TStr string
  | TDatetime datetime
  | TOther string

text \<open>What an f-string prints for \<open>type(v)\<close>: the class name between quotes.\<close>

definition type_repr :: "string \<Rightarrow> string" where
  "type_repr cls = ''<class '' @ [CHR 0x27] @ cls @ [CHR 0x27] @ ''>''"

fun format_time :: "time_value \<Rightarrow> exn + string option" where
  "format_time TNone = Inr None"
| "format_time (TStr s) = Inr (Some s)"
| "format_time (TDatetime dt) = Inr (Some (isoformat dt))"
| "format_time (TOther cls) =
     Inl (TypeError (''Time value must be str, datetime, or None, got '' @ type_repr cls))"

subsection \<open>The codec as the specification words it\<close>

text \<open>
  The specification's reading of the codec, for comparison with \<open>format_time\<close>: a
  structured timestamp without a zone is serialized with the caller's local offset, one
  with a zone keeps its own offset. The caller's local offset is the first argument.
\<close>

definition format_time_spec :: "int \<Rightarrow> time_value \<Rightarrow> exn + string option" where
  "format_time_spec local_offset v =
     (case v of
        TDatetime dt \<Rightarrow>
          (case utcoffset dt of
             None \<Rightarrow> Inr (Some (iso_local dt @ format_offset (Some local_offset)))
           | Some d \<Rightarrow> Inr (Some (iso_local dt @ format_offset (Some d))))
      | _ \<Rightarrow> format_time v)"

subsection \<open>A reader for the offset designator\<close>

text \<open>
  A reference reader for the designator \<open>+HH:MM[:SS[.ffffff]]\<close>: the sign, then the
  decimal fields at their fixed positions, giving the offset in microseconds.
\<close>

definition undec :: "string \<Rightarrow> nat" where
  "undec s = foldl (\<lambda>a c. 10 * a + (of_char c - 48)) 0 s"

definition parse_offset :: "string \<Rightarrow> int option" where
  "parse_offset s =
     (case s of
        [] \<Rightarrow> None
      | c # r \<Rightarrow>
          (let hh = int (undec (take 2 r));
               mm = int (undec (take 2 (drop 3 r)));
               ss = int (undec (take 2 (drop 6 r)));
               us = int (undec (take 6 (drop 9 r)));
               total = ((hh * 60 + mm) * 60 + ss) * 1000000 + us
           in Some (if c = CHR ''-'' then - total else total)))"

text \<open>The two timestamps used as examples: 2024-01-15 10:30:00, naive and at -05:30.\<close>

definition naive_example :: datetime where
  "naive_example = \<lparr>year = 2024, month = 1, day = 15, hour = 10, minute = 30, second = 0,
     microsecond = 0, utcoffset = None\<rparr>"

definition aware_example :: datetime where
  "aware_example = \<lparr>year = 2024, month = 1, day = 15, hour = 10, minute = 30, second = 0,
     microsecond = 0, utcoffset = Some (- 19800000000)\<rparr>"

section \<open>The client and the stream controllers\<close>

datatype http_method = GET | POST | PUT

datatype pval = PStr string | PBool bool | PInt int | PStrList "string list"

type_synonym params = "(string \<times> pval) list"

record request =
  verb :: http_method
  path :: string
  params :: params

record 'r client =
  transport :: "request \<Rightarrow> exn + 'r"
  sent :: "request list"

definition client_request :: "'r client \<Rightarrow> http_method \<Rightarrow> string \<Rightarrow> params \<Rightarrow> (exn + 'r) \<times> 'r client" where
  "client_request c m p ps =
     (let rq = \<lparr>verb = m, path = p, params = ps\<rparr>
      in (transport c rq, c\<lparr>sent := sent c @ [rq]\<rparr>))"

fun dict_set :: "('k \<times> 'v) list \<Rightarrow> 'k \<Rightarrow> 'v \<Rightarrow> ('k \<times> 'v) list" where
  "dict_set [] k v = [(k, v)]"
| "dict_set ((k', v') # kvs) k v =
     (if k' = k then (k', v) # kvs else (k', v') # dict_set kvs k v)"

definition set_if_str :: "params \<Rightarrow> string \<Rightarrow> string option \<Rightarrow> params" where
  "set_if_str ps k v =
     (case v of None \<Rightarrow> ps | Some s \<Rightarrow> if s \<noteq> [] then dict_set ps k (PStr s) else ps)"





definition retrieve_update ::
    "'r client \<Rightarrow> string \<Rightarrow> string option \<Rightarrow> string option \<Rightarrow> (exn + 'r) \<times> 'r client" where
  "retrieve_update c marker sf du =
     (let ps = [];
          ps = set_if_str ps ''selectedFields'' sf;
          ps = set_if_str ps ''desiredUnits'' du
      in client_request c GET (''streams/updates/'' @ marker) ps)"

definition register_updates ::
    "'r client \<Rightarrow> string list \<Rightarrow> string option \<Rightarrow> (exn + 'r) \<times> 'r client" where
  "register_updates c web_ids sf =
     (let ps = [(''webId'', PStrList web_ids)];
          ps = set_if_str ps ''selectedFields'' sf
      in client_request c POST ''streamsets/updates'' ps)"

definition retrieve_updates ::
    "'r client \<Rightarrow> string \<Rightarrow> string option \<Rightarrow> string option \<Rightarrow> (exn + 'r) \<times> 'r client" where
  "retrieve_updates c marker sf du =
     (let ps = [(''marker'', PStr marker)];
          ps = set_if_str ps ''selectedFields'' sf;
          ps = set_if_str ps ''desiredUnits'' du
      in client_request c GET ''streamsets/updates'' ps)"

text \<open>
  A hint that is given and not empty, as the one query parameter it becomes; nothing
  otherwise.
\<close>

definition hint :: "string \<Rightarrow> string option \<Rightarrow> params" where
  "hint k v = (case v of None \<Rightarrow> [] | Some s \<Rightarrow> if s = [] then [] else [(k, PStr s)])"


text \<open>A client whose transport accepts every request, with nothing sent yet.\<close>

definition accepting_client :: "string client" where
  "accepting_client = \<lparr>transport = (\<lambda>rq. Inr ''accepted''), sent = []\<rparr>"


section \<open>Batched ingestion: the write loop of \<open>use_case_2_create_attributes_and_data_omf\<close>\<close>

text \<open>
  The slices the loop takes: \<open>values[batch_idx:batch_idx + batch_size]\<close> for
  \<open>batch_idx\<close> in \<open>range(0, len(values), batch_size)\<close>, from a given \<open>batch_idx\<close> on.
  The guard on a zero step only makes the recursion total: the callers never pass it.
\<close>

function batches :: "'a list \<Rightarrow> nat \<Rightarrow> nat \<Rightarrow> 'a list list" where
  "batches vals batch_size batch_idx =
     (if batch_size = 0 \<or> length vals \<le> batch_idx then []
      else take batch_size (drop batch_idx vals) #
           batches vals batch_size (batch_idx + batch_size))"
  by pat_completeness auto
termination
  by (relation "measure (\<lambda>(vals, batch_size, batch_idx). length vals - batch_idx)") auto

declare batches.simps [simp del]

text \<open>
  What the loop prints, as events: the progress line of a batch, the error line of a
  failed batch (its number, the container and the message), and the closing line of the
  container.
\<close>

datatype event =
    BatchComplete nat nat
  | BatchError nat string string
  | WriteFailed string
  | WriteCompleted string

text \<open>
  The state the loop works on: the batches handed to \<open>send_time_series_data\<close> so far, the
  printed lines, and the two counters of the summary.
\<close>

record 'a ingest =
  attempted :: "'a list list"
  printed :: "event list"
  successful_writes :: nat
  failed_writes :: nat

text \<open>
  The OMF endpoint: what \<open>send_time_series_data\<close> answers to a batch, given the number of
  batches it was handed before: \<open>None\<close> when it returns, the exception when it raises.
\<close>

type_synonym 'a omf = "nat \<Rightarrow> 'a list \<Rightarrow> exn option"

definition progress :: "nat \<Rightarrow> nat \<Rightarrow> event list" where
  "progress batch_num total_batches =
     (if batch_num mod 2 = 0 \<or> batch_num = total_batches
      then [BatchComplete batch_num total_batches] else [])"

text \<open>The progress lines of k consecutive batches that were accepted.\<close>

definition progress_lines :: "nat \<Rightarrow> nat \<Rightarrow> nat \<Rightarrow> event list" where
  "progress_lines total_batches first k =
     concat (map (\<lambda>n. progress n total_batches) [first ..< first + k])"

text \<open>
  The \<open>for\<close> loop. It returns \<open>write_error\<close>, or the exception that leaves the loop: only
  a \<open>PIWebAPIError\<close> is caught.
\<close>

function write_loop ::
    "'a omf \<Rightarrow> string \<Rightarrow> 'a list \<Rightarrow> nat \<Rightarrow> nat \<Rightarrow> nat \<Rightarrow> 'a ingest \<Rightarrow> (exn + bool) \<times> 'a ingest" where
  "write_loop omf container_name vals batch_size total_batches batch_idx st =
     (if batch_size = 0 \<or> length vals \<le> batch_idx then (Inr False, st)
      else
        (let batch_values = take batch_size (drop batch_idx vals);
             batch_num = batch_idx div batch_size + 1;
             st1 = st\<lparr>attempted := attempted st @ [batch_values]\<rparr>
         in case omf (length (attempted st)) batch_values of
              None \<Rightarrow>
                write_loop omf container_name vals batch_size total_batches
                  (batch_idx + batch_size)
                  (st1\<lparr>printed := printed st1 @ progress batch_num total_batches\<rparr>)
            | Some (PIWebAPIError msg) \<Rightarrow>
                (Inr True,
                 st1\<lparr>printed := printed st1 @ [BatchError batch_num container_name msg]\<rparr>)
            | Some e \<Rightarrow> (Inl e, st1)))"
  by pat_completeness auto
termination
  by (relation "measure (\<lambda>(omf, cn, vals, batch_size, total, batch_idx, st).
                   length vals - batch_idx)") auto

declare write_loop.simps [simp del]


text \<open>An empty state, an endpoint that accepts everything, one that rejects its second batch.\<close>

definition fresh :: "nat ingest" where
  "fresh = \<lparr>attempted = [], printed = [], successful_writes = 0, failed_writes = 0\<rparr>"

definition accept_all :: "nat omf" where
  "accept_all n b = None"


section \<open>The hierarchy resolver: \<open>create_or_get_element\<close>\<close>

text \<open>
  An element is a dictionary of strings. What the script does to the service is kept as a
  list of actions: a lookup by name filter, a creation, a sleep (in milliseconds); the
  flag says whether the parent is the database (\<open>is_root\<close>) or an element.
\<close>

type_synonym elem = "(string \<times> string) list"

datatype action =
    GetElements bool string string
  | CreateElement bool string elem
  | Sleep nat

text \<open>
  The service: what \<open>get_elements\<close> answers (the \<open>Items\<close> of the response, if it has
  any, or an exception) and whether \<open>create_element\<close> raises, given the actions so far.
\<close>

record service =
  get_elements :: "action list \<Rightarrow> bool \<Rightarrow> string \<Rightarrow> string \<Rightarrow> exn + elem list option"
  create_element :: "action list \<Rightarrow> bool \<Rightarrow> string \<Rightarrow> elem \<Rightarrow> exn option"

text \<open>\<open>response.get("Items", [])\<close>.\<close>

definition items :: "elem list option \<Rightarrow> elem list" where
  "items r = (case r of None \<Rightarrow> [] | Some es \<Rightarrow> es)"

text \<open>The loop \<open>for elem in ...: if elem["Name"] == name: return elem\<close>.\<close>

fun find_named :: "string \<Rightarrow> elem list \<Rightarrow> exn + elem option" where
  "find_named name [] = Inr None"
| "find_named name (e # es) =
     (case map_of e ''Name'' of
        None \<Rightarrow> Inl (KeyError ''Name'')
      | Some n \<Rightarrow> if n = name then Inr (Some e) else find_named name es)"

text \<open>The first block, under \<open>try\<close> with a bare \<open>except: pass\<close>: any exception is dropped.\<close>

definition try_existing ::
    "service \<Rightarrow> action list \<Rightarrow> bool \<Rightarrow> string \<Rightarrow> string \<Rightarrow> elem option" where
  "try_existing svc tr is_root parent_webid name =
     (case get_elements svc tr is_root parent_webid name of
        Inl e \<Rightarrow> None
      | Inr existing \<Rightarrow>
          (case find_named name (items existing) of Inl e \<Rightarrow> None | Inr found \<Rightarrow> found))"

text \<open>
  \<open>create_or_get_element\<close>, without its printed lines: look the name up; if it is not
  there, create it, sleep half a second, look it up once more, and raise if it is still
  not there.
\<close>

definition create_or_get_element ::
    "service \<Rightarrow> action list \<Rightarrow> string \<Rightarrow> string \<Rightarrow> string \<Rightarrow> bool \<Rightarrow>
       (exn + elem) \<times> action list" where
  "create_or_get_element svc tr parent_webid name description is_root =
     (let look = GetElements is_root parent_webid name;
          tr1 = tr @ [look]
      in case try_existing svc tr is_root parent_webid name of
           Some elem \<Rightarrow> (Inr elem, tr1)
         | None \<Rightarrow>
             (let element_def = [(''Name'', name), (''Description'', description)];
                  tr2 = tr1 @ [CreateElement is_root parent_webid element_def]
              in case create_element svc tr1 is_root parent_webid element_def of
                   Some e \<Rightarrow> (Inl e, tr2)
                 | None \<Rightarrow>
                     (let tr3 = tr2 @ [Sleep 500];
                          tr4 = tr3 @ [look]
                      in case get_elements svc tr3 is_root parent_webid name of
                           Inl e \<Rightarrow> (Inl e, tr4)
                         | Inr result \<Rightarrow>
                             (case find_named name (items result) of
                                Inl e \<Rightarrow> (Inl e, tr4)
                              | Inr (Some elem) \<Rightarrow> (Inr elem, tr4)
                              | Inr None \<Rightarrow>
                                  (Inl (Exception (''Failed to create '' @ name)), tr4)))))"

text \<open>Whether an outcome is a failure by timeout, as the specification has it.\<close>

fun is_timeout :: "exn + 'a \<Rightarrow> bool" where
  "is_timeout (Inl (TimeoutError msg)) = True"
| "is_timeout r = False"

text \<open>A service that accepts every creation and never shows any element.\<close>

definition never_visible :: service where
  "never_visible = \<lparr>get_elements = (\<lambda>tr is_root parent_webid name. Inr (Some [])),
                     create_element = (\<lambda>tr is_root parent_webid element_def. None)\<rparr>"

section \<open>The event frame model: \<open>EventFrame.to_dict\<close> and \<open>EventFrame.from_dict\<close>\<close>

text \<open>
  Field values are dynamically typed: \<open>None\<close>, a string, a boolean, a list of strings
  (\<open>category_names\<close>) or a dictionary of strings (\<open>links\<close>). A dictionary in PI Web API
  format maps keys to such values; a key may be present with the value \<open>None\<close>.
\<close>

datatype pyval =
    PyNone
  | PyStr string
  | PyBool bool
  | PyList "string list"
  | PyDict "(string \<times> string) list"

type_synonym pydict = "string \<Rightarrow> pyval option"

text \<open>
  The fields of the base class \<open>PIWebAPIObject\<close> and those \<open>EventFrame\<close> adds. The
  fields \<open>web_id\<close>, \<open>id\<close>, \<open>name\<close>, \<open>description\<close>, \<open>path\<close>, \<open>start_time\<close> and \<open>end_time\<close>
  carry a prime, since these names are taken elsewhere.
\<close>

record PIWebAPIObject =
  web_id' :: pyval
  id' :: pyval
  name' :: pyval
  description' :: pyval
  path' :: pyval
  links :: pyval

record EventFrame = PIWebAPIObject +
  acknowledge_date :: pyval
  acknowledged_by :: pyval
  are_values_captured :: pyval
  can_be_acknowledged :: pyval
  category_names :: pyval
  end_time' :: pyval
  has_children :: pyval
  is_acknowledged :: pyval
  is_annotation :: pyval
  is_locked :: pyval
  referenced_element_web_id :: pyval
  security_descriptor :: pyval
  severity :: pyval
  start_time' :: pyval
  template_name :: pyval

text \<open>\<open>data.get(key)\<close>: the value under the key, \<open>None\<close> when the key is missing.\<close>

definition dict_get :: "pydict \<Rightarrow> string \<Rightarrow> pyval" where
  "dict_get data k = (case data k of None \<Rightarrow> PyNone | Some v \<Rightarrow> v)"

text \<open>\<open>if self.x is not None or not exclude_none: result[key] = self.x\<close>.\<close>

definition put :: "pydict \<Rightarrow> string \<Rightarrow> pyval \<Rightarrow> bool \<Rightarrow> pydict" where
  "put result k v exclude_none =
     (if v \<noteq> PyNone \<or> \<not> exclude_none then result(k \<mapsto> v) else result)"

text \<open>
  \<open>EventFrame.to_dict\<close>. Its first argument is \<open>super().to_dict\<close>, the method of the base
  class, which is not among the sources.
\<close>

definition to_dict ::
    "(EventFrame \<Rightarrow> bool \<Rightarrow> pydict) \<Rightarrow> EventFrame \<Rightarrow> bool \<Rightarrow> pydict" where
  "to_dict super_to_dict self exclude_none =
     (let result = super_to_dict self exclude_none;
          result = put result ''AcknowledgeDate'' (acknowledge_date self) exclude_none;
          result = put result ''AcknowledgedBy'' (acknowledged_by self) exclude_none;
          result = put result ''AreValuesCaptured'' (are_values_captured self) exclude_none;
          result = put result ''CanBeAcknowledged'' (can_be_acknowledged self) exclude_none;
          result = put result ''CategoryNames'' (category_names self) exclude_none;
          result = put result ''EndTime'' (end_time' self) exclude_none;
          result = put result ''HasChildren'' (has_children self) exclude_none;
          result = put result ''IsAcknowledged'' (is_acknowledged self) exclude_none;
          result = put result ''IsAnnotation'' (is_annotation self) exclude_none;
          result = put result ''IsLocked'' (is_locked self) exclude_none;
          result = put result ''ReferencedElementWebId'' (referenced_element_web_id self)
                     exclude_none;
          result = put result ''SecurityDescriptor'' (security_descriptor self) exclude_none;
          result = put result ''Severity'' (severity self) exclude_none;
          result = put result ''StartTime'' (start_time' self) exclude_none;
          result = put result ''TemplateName'' (template_name self) exclude_none
      in result)"

text \<open>
  \<open>EventFrame.from_dict\<close>. Its first argument is \<open>PIWebAPIObject.from_dict\<close>, which is
  not among the sources either.
\<close>

definition from_dict :: "(pydict \<Rightarrow> PIWebAPIObject) \<Rightarrow> pydict \<Rightarrow> EventFrame" where
  "from_dict base_from_dict data =
     (let base = base_from_dict data
      in \<lparr>web_id' = web_id' base, id' = id' base, name' = name' base,
          description' = description' base, path' = path' base, links = links base,
          acknowledge_date = dict_get data ''AcknowledgeDate'',
          acknowledged_by = dict_get data ''AcknowledgedBy'',
          are_values_captured = dict_get data ''AreValuesCaptured'',
          can_be_acknowledged = dict_get data ''CanBeAcknowledged'',
          category_names = dict_get data ''CategoryNames'',
          end_time' = dict_get data ''EndTime'',
          has_children = dict_get data ''HasChildren'',
          is_acknowledged = dict_get data ''IsAcknowledged'',
          is_annotation = dict_get data ''IsAnnotation'',
          is_locked = dict_get data ''IsLocked'',
          referenced_element_web_id = dict_get data ''ReferencedElementWebId'',
          security_descriptor = dict_get data ''SecurityDescriptor'',
          severity = dict_get data ''Severity'',
          start_time' = dict_get data ''StartTime'',
          template_name = dict_get data ''TemplateName''\<rparr>)"

text \<open>The keys \<open>EventFrame\<close> writes, each with the field it holds.\<close>

definition event_fields :: "(string \<times> (EventFrame \<Rightarrow> pyval)) list" where
  "event_fields =
     [(''AcknowledgeDate'', acknowledge_date), (''AcknowledgedBy'', acknowledged_by),
      (''AreValuesCaptured'', are_values_captured), (''CanBeAcknowledged'', can_be_acknowledged),
      (''CategoryNames'', category_names), (''EndTime'', end_time'),
      (''HasChildren'', has_children), (''IsAcknowledged'', is_acknowledged),
      (''IsAnnotation'', is_annotation), (''IsLocked'', is_locked),
      (''ReferencedElementWebId'', referenced_element_web_id),
      (''SecurityDescriptor'', security_descriptor), (''Severity'', severity),
      (''StartTime'', start_time'), (''TemplateName'', template_name)]"

definition event_keys :: "string list" where
  "event_keys = map fst event_fields"

text \<open>The part of an event frame that belongs to the base class.\<close>

definition base_of :: "EventFrame \<Rightarrow> PIWebAPIObject" where
  "base_of e = \<lparr>web_id' = web_id' e, id' = id' e, name' = name' e,
     description' = description' e, path' = path' e, links = links e\<rparr>"

text \<open>
  What the round trip needs of the two methods of the base class: they write none of the
  keys of \<open>EventFrame\<close>, and what \<open>from_dict\<close> reads back from a dictionary that agrees
  with the written one on all other keys is the base part of the object.
\<close>

definition base_round_trip ::
    "(EventFrame \<Rightarrow> bool \<Rightarrow> pydict) \<Rightarrow> (pydict \<Rightarrow> PIWebAPIObject) \<Rightarrow> bool" where
  "base_round_trip super_to_dict base_from_dict =
     ((\<forall>e ex k. k \<in> set event_keys \<longrightarrow> super_to_dict e ex k = None) \<and>
      (\<forall>e ex d. (\<forall>k. k \<notin> set event_keys \<longrightarrow> d k = super_to_dict e ex k) \<longrightarrow>
                 base_from_dict d = base_of e))"

text \<open>
  Modelled from the spec: the base class \<open>PIWebAPIObject\<close> (\<open>models/base.py\<close>) is not
  among the sources, and the specification only calls it a dataclass-style field mapping
  for API payloads. This instance maps the six fields that \<open>EventFrame.from_dict\<close> reads
  from the base object to keys in the way \<open>EventFrame\<close> maps its own.
\<close>

definition PIWebAPIObject_to_dict :: "EventFrame \<Rightarrow> bool \<Rightarrow> pydict" where
  "PIWebAPIObject_to_dict self exclude_none =
     (let result = Map.empty;
          result = put result ''WebId'' (web_id' self) exclude_none;
          result = put result ''Id'' (id' self) exclude_none;
          result = put result ''Name'' (name' self) exclude_none;
          result = put result ''Description'' (description' self) exclude_none;
          result = put result ''Path'' (path' self) exclude_none;
          result = put result ''Links'' (links self) exclude_none
      in result)"

definition PIWebAPIObject_from_dict :: "pydict \<Rightarrow> PIWebAPIObject" where
  "PIWebAPIObject_from_dict data =
     \<lparr>web_id' = dict_get data ''WebId'', id' = dict_get data ''Id'',
      name' = dict_get data ''Name'', description' = dict_get data ''Description'',
      path' = dict_get data ''Path'', links = dict_get data ''Links''\<rparr>"

text \<open>The keys this instance writes, each with the field it holds.\<close>

definition base_fields :: "(string \<times> (EventFrame \<Rightarrow> pyval)) list" where
  "base_fields =
     [(''WebId'', web_id'), (''Id'', id'), (''Name'', name'),
      (''Description'', description'), (''Path'', path'), (''Links'', links)]"

text \<open>An event frame with some fields set and the others \<open>None\<close>.\<close>

definition example_frame :: EventFrame where
  "example_frame =
     \<lparr>web_id' = PyStr ''F1DP'', id' = PyNone, name' = PyStr ''Batch 7'',
      description' = PyNone, path' = PyNone, links = PyNone,
      acknowledge_date = PyNone, acknowledged_by = PyNone,
      are_values_captured = PyBool False, can_be_acknowledged = PyNone,
      category_names = PyList [''Downtime''], end_time' = PyNone,
      has_children = PyNone, is_acknowledged = PyNone, is_annotation = PyNone,
      is_locked = PyNone, referenced_element_web_id = PyNone,
      security_descriptor = PyNone, severity = PyStr ''Major'',
      start_time' = PyStr ''2024-01-15T10:30:00Z'', template_name = PyNone\<rparr>"

section \<open>Properties of the time codec\<close>

subsection \<open>Decimal fields are read back\<close>

lemma undec_snoc: "undec (xs @ [c]) = 10 * undec xs + (of_char c - 48)"
  by (simp add: undec_def)

lemma of_char_digit: "n < 10 \<Longrightarrow> of_char (digit n) - 48 = n"
  by (simp add: digit_def)

lemma undec_dec: "undec (dec n) = n"
proof (induction n rule: dec.induct)
  case (1 n)
  show ?case
  proof (cases "n < 10")
    case True
    then show ?thesis by (subst dec.simps) (simp add: undec_def of_char_digit)
  next
    case False
    then have "undec (dec n) = 10 * undec (dec (n div 10)) + (of_char (digit (n mod 10)) - 48)"
      by (subst dec.simps) (simp add: undec_snoc)
    also have "\<dots> = 10 * (n div 10) + n mod 10"
      using 1 False by (simp add: of_char_digit)
    finally show ?thesis by simp
  qed
qed

lemma undec_zeros: "undec (replicate k (CHR ''0'') @ s) = undec s"
proof -
  have "foldl (\<lambda>a c. 10 * a + (of_char c - 48)) 0 (replicate k (CHR ''0'')) = (0::nat)"
    by (induction k) simp_all
  then show ?thesis by (simp add: undec_def)
qed

lemma undec_fmt_d: "undec (fmt_d w n) = n"
  by (simp add: fmt_d_def undec_zeros undec_dec)

lemma undec_Nil: "undec [] = 0"
  by (simp add: undec_def)

lemma length_dec: "0 < w \<Longrightarrow> n < 10 ^ w \<Longrightarrow> length (dec n) \<le> w"
proof (induction n arbitrary: w rule: dec.induct)
  case (1 n)
  show ?case
  proof (cases "n < 10")
    case True
    then show ?thesis using 1(2) by (subst dec.simps) simp
  next
    case False
    obtain v where w: "w = Suc v" using 1(2) by (cases w) auto
    have v0: "0 < v" using False 1(3) w by (cases v) auto
    have "n div 10 < 10 ^ v" using 1(3) w by (simp add: less_mult_imp_div_less mult.commute)
    then have "length (dec (n div 10)) \<le> v" using 1(1)[OF False v0] by simp
    then show ?thesis using False w by (subst dec.simps) simp
  qed
qed

lemma length_fmt_d: "0 < w \<Longrightarrow> n < 10 ^ w \<Longrightarrow> length (fmt_d w n) = w"
  using length_dec[of w n] by (simp add: fmt_d_def)

lemma length_fmt_d2: "n < 100 \<Longrightarrow> length (fmt_d 2 n) = 2"
  using length_fmt_d[of 2 n] by simp

lemma parse_fields:
  assumes "length H = 2" "length M = 2"
  shows "parse_offset (c # H @ '':'' @ M) =
           Some (if c = CHR ''-'' then - ((int (undec H) * 60 + int (undec M)) * 60 * 1000000)
                 else (int (undec H) * 60 + int (undec M)) * 60 * 1000000)"
    and "length S = 2 \<Longrightarrow> parse_offset (c # H @ '':'' @ M @ '':'' @ S) =
           Some (if c = CHR ''-''
                 then - (((int (undec H) * 60 + int (undec M)) * 60 + int (undec S)) * 1000000)
                 else ((int (undec H) * 60 + int (undec M)) * 60 + int (undec S)) * 1000000)"
    and "length S = 2 \<Longrightarrow> parse_offset (c # H @ '':'' @ M @ '':'' @ S @ ''.'' @ U) =
           Some (if c = CHR ''-''
                 then - (((int (undec H) * 60 + int (undec M)) * 60 + int (undec S)) * 1000000
                          + int (undec (take 6 U)))
                 else ((int (undec H) * 60 + int (undec M)) * 60 + int (undec S)) * 1000000
                          + int (undec (take 6 U)))"
  using assms by (simp_all add: parse_offset_def Let_def undec_Nil)



lemma hh_bound:
  "0 \<le> (a::int) \<Longrightarrow> a < 86400000000 \<Longrightarrow> 0 \<le> a div 3600000000 \<and> a div 3600000000 < 24"
  by linarith

lemma mm_bound:
  "0 \<le> (a::int) mod 3600000000 div 60000000 \<and> a mod 3600000000 div 60000000 < 60"
proof -
  have "0 \<le> a mod 3600000000" "a mod 3600000000 < 3600000000" by simp_all
  then show ?thesis by linarith
qed

lemma sec_bound:
  "0 \<le> (r::int) mod 60000000 div 1000000 \<and> r mod 60000000 div 1000000 < 60"
proof -
  have "0 \<le> r mod 60000000" "r mod 60000000 < 60000000" by simp_all
  then show ?thesis by linarith
qed

lemma split_total:
  fixes a :: int
  defines "r \<equiv> a mod 3600000000"
  defines "ss \<equiv> r mod 60000000"
  shows "a = ((a div 3600000000 * 60 + r div 60000000) * 60 + ss div 1000000) * 1000000
             + ss mod 1000000"
proof -
  have 1: "a = 3600000000 * (a div 3600000000) + r" by (simp add: r_def)
  have 2: "r = 60000000 * (r div 60000000) + ss" by (simp add: ss_def)
  have 3: "ss = 1000000 * (ss div 1000000) + ss mod 1000000" by simp
  show ?thesis using 1 2 3 by (simp add: algebra_simps)
qed

lemma parse_format_offset:
  assumes "\<bar>d\<bar> < 86400000000"
  shows "parse_offset (format_offset (Some d)) = Some d"
proof -
  define a where "a = \<bar>d\<bar>"
  define hh where "hh = a div 3600000000"
  define r where "r = a mod 3600000000"
  define mm where "mm = r div 60000000"
  define ss where "ss = r mod 60000000"
  define sec where "sec = ss div 1000000"
  define us where "us = ss mod 1000000"
  define c where "c = (if d < 0 then CHR ''-'' else CHR ''+'')"
  define H where "H = fmt_d 2 (nat hh)"
  define M where "M = fmt_d 2 (nat mm)"
  define S where "S = fmt_d 2 (nat sec)"
  define U where "U = fmt_d 6 (nat us)"
  have a: "0 \<le> a" "a < 86400000000" using assms by (simp_all add: a_def)
  have bh: "0 \<le> hh" "hh < 24" using hh_bound[OF a] by (simp_all add: hh_def)
  have bm: "0 \<le> mm" "mm < 60" using mm_bound[of a] by (simp_all add: mm_def r_def)
  have bs: "0 \<le> sec" "sec < 60" using sec_bound[of r] by (simp_all add: sec_def ss_def)
  have bu: "0 \<le> us" "us < 1000000" by (simp_all add: us_def)
  have tot: "((hh * 60 + mm) * 60 + sec) * 1000000 + us = a"
    using split_total[of a] by (simp add: hh_def mm_def r_def sec_def ss_def us_def)
  have lH: "length H = 2" unfolding H_def using bh by (intro length_fmt_d2) linarith
  have lM: "length M = 2" unfolding M_def using bm by (intro length_fmt_d2) linarith
  have lS: "length S = 2" unfolding S_def using bs by (intro length_fmt_d2) linarith
  have lU: "length U = 6" unfolding U_def using bu length_fmt_d[of 6 "nat us"] by simp
  have uH: "int (undec H) = hh" using bh by (simp add: H_def undec_fmt_d)
  have uM: "int (undec M) = mm" using bm by (simp add: M_def undec_fmt_d)
  have uS: "int (undec S) = sec" using bs by (simp add: S_def undec_fmt_d)
  have uU: "int (undec (take 6 U)) = us" using bu lU by (simp add: U_def undec_fmt_d)
  have cm: "(c = CHR ''-'') = (d < 0)" by (simp add: c_def)
  have sgn: "(if d < 0 then - a else a) = d" by (simp add: a_def)
  have fo: "format_offset (Some d) =
      c # H @ '':'' @ M @ (if ss \<noteq> 0 then '':'' @ S @ (if us \<noteq> 0 then ''.'' @ U else []) else [])"
  proof (cases "d < 0")
    case True
    then show ?thesis
      unfolding format_offset_def Let_def c_def H_def M_def S_def U_def us_def sec_def ss_def
        mm_def r_def hh_def a_def
      by (simp only: option.case if_True append_Cons append_Nil)
  next
    case False
    then show ?thesis
      unfolding format_offset_def Let_def c_def H_def M_def S_def U_def us_def sec_def ss_def
        mm_def r_def hh_def a_def
      by (simp only: option.case if_False append_Cons append_Nil)
  qed
  have "parse_offset (format_offset (Some d)) = Some (if d < 0 then - a else a)"
  proof (cases "ss = 0")
    case True
    then have z: "sec = 0" "us = 0" by (simp_all add: sec_def us_def)
    have "format_offset (Some d) = c # H @ '':'' @ M" using True by (simp add: fo)
    then have "parse_offset (format_offset (Some d)) =
        Some (if d < 0 then - ((hh * 60 + mm) * 60 * 1000000) else (hh * 60 + mm) * 60 * 1000000)"
      using parse_fields(1)[OF lH lM, of c] by (simp only: uH uM cm)
    moreover have "(hh * 60 + mm) * 60 * 1000000 = a" using tot z by simp
    ultimately show ?thesis by simp
  next
    case False
    show ?thesis
    proof (cases "us = 0")
      case True
      have "format_offset (Some d) = c # H @ '':'' @ M @ '':'' @ S"
        using True False by (simp add: fo)
      then have "parse_offset (format_offset (Some d)) =
          Some (if d < 0 then - (((hh * 60 + mm) * 60 + sec) * 1000000)
                else ((hh * 60 + mm) * 60 + sec) * 1000000)"
        using parse_fields(2)[OF lH lM lS, of c] by (simp only: uH uM uS cm)
      moreover have "((hh * 60 + mm) * 60 + sec) * 1000000 = a" using tot True by simp
      ultimately show ?thesis by simp
    next
      case nz: False
      have "format_offset (Some d) = c # H @ '':'' @ M @ '':'' @ S @ ''.'' @ U"
        using nz False by (simp add: fo)
      then have "parse_offset (format_offset (Some d)) =
          Some (if d < 0 then - (((hh * 60 + mm) * 60 + sec) * 1000000 + us)
                else ((hh * 60 + mm) * 60 + sec) * 1000000 + us)"
        using parse_fields(3)[OF lH lM lS, of c U] by (simp only: uH uM uS uU cm)
      then show ?thesis by (simp only: tot)
    qed
  qed
  then show ?thesis by (simp only: sgn)
qed

lemma format_offset_None: "format_offset None = []"
  by (simp add: format_offset_def)


subsection \<open>Pass-through, rejection and zone handling\<close>

text \<open>
  C4. A string given to the time codec comes back as it is: the codec neither parses nor
  validates it, so keywords such as \<open>*\<close> and relative expressions pass through.
\<close>

theorem format_time_str_passthrough: "format_time (TStr s) = Inr (Some s)"
  by simp

text \<open>
  C8. An argument that is neither \<open>None\<close>, a string nor a \<open>datetime\<close> makes the codec
  raise \<open>TypeError\<close>, Python's error for an argument of the wrong kind, with a message
  that ends in the class of the value received. The codec is a function of its argument
  alone: it takes no client and no state, so it has nothing to change.
\<close>

theorem format_time_rejects_other_types:
  assumes "v \<noteq> TNone" and "\<forall>s. v \<noteq> TStr s" and "\<forall>dt. v \<noteq> TDatetime dt"
  shows "\<exists>cls. v = TOther cls \<and>
           format_time v =
             Inl (TypeError (''Time value must be str, datetime, or None, got '' @ type_repr cls))"
  using assms by (cases v) simp_all

theorem format_time_rejects_other_types_witness:
  "format_time (TOther ''int'') =
     Inl (TypeError ''Time value must be str, datetime, or None, got <class 'int'>'')"
  using format_time_rejects_other_types [of "TOther ''int''"] by (simp add: type_repr_def)

text \<open>
  C3, as stated, fails: a \<open>datetime\<close> without a zone is serialized with no offset at
  all, where the specification's codec appends the caller's local offset (here +01:00).
\<close>

theorem format_time_naive_has_no_offset:
  "format_time (TDatetime naive_example) = Inr (Some ''2024-01-15T10:30:00'') \<and>
   format_time_spec 3600000000 (TDatetime naive_example) =
     Inr (Some ''2024-01-15T10:30:00+01:00'') \<and>
   format_time (TDatetime naive_example) \<noteq> format_time_spec 3600000000 (TDatetime naive_example)"
proof -
  have 1: "format_time (TDatetime naive_example) = Inr (Some ''2024-01-15T10:30:00'')"
    by code_simp
  have 2: "format_time_spec 3600000000 (TDatetime naive_example) =
      Inr (Some ''2024-01-15T10:30:00+01:00'')"
    by code_simp
  show ?thesis unfolding 1 2 by simp
qed

text \<open>
  C3, amended. A \<open>datetime\<close> without a zone is serialized as its date and time alone,
  with no offset designator; one whose zone gives an offset (always less than a day in
  Python) is serialized as the same date and time followed by the designator of that very
  offset, from which the offset is read back unchanged. No local zone enters either case.
\<close>

theorem format_time_datetime_offset:
  "(utcoffset dt = None \<longrightarrow> format_time (TDatetime dt) = Inr (Some (iso_local dt))) \<and>
   (\<forall>d. utcoffset dt = Some d \<and> \<bar>d\<bar> < 86400000000 \<longrightarrow>
        format_time (TDatetime dt) = Inr (Some (iso_local dt @ format_offset (Some d))) \<and>
        parse_offset (format_offset (Some d)) = Some d)"
  by (simp add: isoformat_def format_offset_None parse_format_offset)

theorem format_time_datetime_offset_witness:
  "format_time (TDatetime naive_example) = Inr (Some ''2024-01-15T10:30:00'') \<and>
   format_time (TDatetime aware_example) = Inr (Some ''2024-01-15T10:30:00-05:30'') \<and>
   parse_offset ''-05:30'' = Some (- 19800000000)"
proof -
  have n: "utcoffset naive_example = None"
    by (simp add: naive_example_def)
  have a: "utcoffset aware_example = Some (- 19800000000) \<and> \<bar>- 19800000000 :: int\<bar> < 86400000000"
    by (simp add: aware_example_def)
  have 1: "format_time (TDatetime naive_example) = Inr (Some (iso_local naive_example))"
    using format_time_datetime_offset [of naive_example] n by blast
  have 2: "format_time (TDatetime aware_example) =
             Inr (Some (iso_local aware_example @ format_offset (Some (- 19800000000)))) \<and>
           parse_offset (format_offset (Some (- 19800000000))) = Some (- 19800000000)"
    using format_time_datetime_offset [of aware_example] a by blast
  have 3: "iso_local naive_example = ''2024-01-15T10:30:00''" by code_simp
  have 4: "iso_local aware_example = ''2024-01-15T10:30:00''" by code_simp
  have 5: "format_offset (Some (- 19800000000)) = ''-05:30''" by code_simp
  show ?thesis using 1 2 unfolding 3 4 5 by simp
qed

section \<open>Properties of the stream controllers\<close>




lemma retrieve_update_request:
  "retrieve_update c marker sf du =
     (let rq = \<lparr>verb = GET, path = ''streams/updates/'' @ marker,
                 params = hint ''selectedFields'' sf @ hint ''desiredUnits'' du\<rparr>
      in (transport c rq, c\<lparr>sent := sent c @ [rq]\<rparr>))"
  by (cases sf; cases du) (simp_all add: retrieve_update_def client_request_def hint_def set_if_str_def Let_def)

lemma retrieve_updates_request:
  "retrieve_updates c marker sf du =
     (let rq = \<lparr>verb = GET, path = ''streamsets/updates'',
                 params = (''marker'', PStr marker) # hint ''selectedFields'' sf @ hint ''desiredUnits'' du\<rparr>
      in (transport c rq, c\<lparr>sent := sent c @ [rq]\<rparr>))"
  by (cases sf; cases du) (simp_all add: retrieve_updates_def client_request_def hint_def set_if_str_def Let_def)





text \<open>
  C7. Retrieval is one round trip. \<open>StreamController.retrieve_update\<close> issues exactly one
  request, a GET whose path ends in the marker; \<open>StreamSetController.retrieve_updates\<close>
  issues exactly one request, a GET to \<open>streamsets/updates\<close> with the marker as the query
  parameter \<open>marker\<close>. In both, \<open>selectedFields\<close> and \<open>desiredUnits\<close> are query parameters
  exactly when the hint is given, where an empty string counts as not given, as everywhere
  in these controllers.
\<close>

theorem retrieve_is_one_get:
  "retrieve_update c marker sf du =
     (let rq = \<lparr>verb = GET, path = ''streams/updates/'' @ marker,
                 params = hint ''selectedFields'' sf @ hint ''desiredUnits'' du\<rparr>
      in (transport c rq, c\<lparr>sent := sent c @ [rq]\<rparr>)) \<and>
   retrieve_updates c marker sf du =
     (let rq = \<lparr>verb = GET, path = ''streamsets/updates'',
                 params = (''marker'', PStr marker) #
                          hint ''selectedFields'' sf @ hint ''desiredUnits'' du\<rparr>
      in (transport c rq, c\<lparr>sent := sent c @ [rq]\<rparr>))"
  using retrieve_update_request [of c marker sf du] retrieve_updates_request [of c marker sf du]
  by simp

text \<open>
  C5, as stated, fails: \<open>register_updates\<close> with an empty list of WebIds raises nothing.
  It issues the POST with an empty \<open>webId\<close> list and returns the transport's answer.
\<close>

theorem register_updates_empty_is_sent:
  "fst (register_updates accepting_client [] None) = Inr ''accepted'' \<and>
   sent (snd (register_updates accepting_client [] None)) =
     [\<lparr>verb = POST, path = ''streamsets/updates'', params = [(''webId'', PStrList [])]\<rparr>]"
  by (simp add: register_updates_def client_request_def accepting_client_def set_if_str_def)

text \<open>
  C5, amended. \<open>register_updates\<close> does not validate its list: for the empty list, as for
  any other, it issues exactly one POST to \<open>streamsets/updates\<close> carrying the list as
  \<open>webId\<close>, and its outcome is whatever the transport answers or raises for that request.
\<close>

theorem register_updates_empty_request:
  "register_updates c [] sf =
     (let rq = \<lparr>verb = POST, path = ''streamsets/updates'',
                 params = (''webId'', PStrList []) # hint ''selectedFields'' sf\<rparr>
      in (transport c rq, c\<lparr>sent := sent c @ [rq]\<rparr>))"
  by (cases sf) (simp_all add: register_updates_def client_request_def hint_def set_if_str_def)

section \<open>Properties of the batched ingestion\<close>

lemma batches_concat: "0 < bs \<Longrightarrow> concat (batches vals bs i) = drop i vals"
proof (induction vals bs i rule: batches.induct)
  case (1 vals bs i)
  show ?case
  proof (cases "length vals \<le> i")
    case True
    then show ?thesis by (subst batches.simps) simp
  next
    case False
    have "concat (batches vals bs i) = take bs (drop i vals) @ drop (i + bs) vals"
      using False 1 by (subst batches.simps) simp
    also have "\<dots> = drop i vals"
      by (metis add.commute append_take_drop_id drop_drop)
    finally show ?thesis .
  qed
qed

lemma batches_bounded: "0 < bs \<Longrightarrow> b \<in> set (batches vals bs i) \<Longrightarrow> b \<noteq> [] \<and> length b \<le> bs"
proof (induction vals bs i rule: batches.induct)
  case (1 vals bs i)
  show ?case
  proof (cases "length vals \<le> i")
    case True
    then show ?thesis using 1(3) by (subst (asm) batches.simps) simp
  next
    case False
    then have "b = take bs (drop i vals) \<or> b \<in> set (batches vals bs (i + bs))"
      using 1(2,3) by (subst (asm) batches.simps) auto
    then show ?thesis using 1(1)[OF _ 1(2)] False 1(2) by auto
  qed
qed


lemma batches_Cons:
  "\<not> (bs = 0 \<or> length vals \<le> i) \<Longrightarrow>
     batches vals bs i = take bs (drop i vals) # batches vals bs (i + bs)"
  by (subst batches.simps) simp


lemma progress_lines_0: "progress_lines tb first 0 = []"
  by (simp add: progress_lines_def)

lemma progress_lines_Suc:
  "progress_lines tb first (Suc k) = progress first tb @ progress_lines tb (Suc first) k"
proof -
  have "[first ..< first + Suc k] = first # [Suc first ..< Suc first + k]"
    by (subst upt_rec) simp
  then show ?thesis by (simp add: progress_lines_def)
qed

lemma div_step: "0 < (bs::nat) \<Longrightarrow> (i + bs) div bs = Suc (i div bs)"
  using div_add_self2 [of bs i] by simp

lemma write_loop_step:
  assumes "\<not> (bs = 0 \<or> length vals \<le> i)"
    and "omf (length (attempted st)) (take bs (drop i vals)) = None"
  shows "write_loop omf cn vals bs tb i st =
           write_loop omf cn vals bs tb (i + bs)
             (st\<lparr>attempted := attempted st @ [take bs (drop i vals)],
                 printed := printed st @ progress (i div bs + 1) tb\<rparr>)"
  using assms by (subst write_loop.simps) (simp add: Let_def)



lemma write_loop_all_accepted:
  "(\<forall>j<length (batches vals bs i).
      omf (length (attempted st) + j) (batches vals bs i ! j) = None) \<Longrightarrow>
   write_loop omf cn vals bs tb i st =
     (Inr False,
      st\<lparr>attempted := attempted st @ batches vals bs i,
         printed := printed st @
                    progress_lines tb (i div bs + 1) (length (batches vals bs i))\<rparr>)"
proof (induction omf cn vals bs tb i st rule: write_loop.induct)
  case (1 omf cn vals bs tb i st)
  show ?case
  proof (cases "bs = 0 \<or> length vals \<le> i")
    case True
    then have "batches vals bs i = []" by (subst batches.simps) simp
    moreover have "write_loop omf cn vals bs tb i st = (Inr False, st)"
      using True by (subst write_loop.simps) simp
    ultimately show ?thesis by (simp add: progress_lines_0)
  next
    case ne: False
    note cs = batches_Cons [OF ne]
    define st1 where "st1 = st\<lparr>attempted := attempted st @ [take bs (drop i vals)]\<rparr>"
    define st2 where "st2 = st1\<lparr>printed := printed st1 @ progress (i div bs + 1) tb\<rparr>"
    have ok: "omf (length (attempted st)) (take bs (drop i vals)) = None"
      using "1.prems" [rule_format, of 0] cs by simp
    have step: "write_loop omf cn vals bs tb i st = write_loop omf cn vals bs tb (i + bs) st2"
      using write_loop_step [where omf = omf and st = st, OF ne ok] by (simp add: st2_def st1_def)
    have len2: "length (attempted st2) = Suc (length (attempted st))"
      by (simp add: st2_def st1_def)
    have p: "\<forall>j<length (batches vals bs (i + bs)).
               omf (length (attempted st2) + j) (batches vals bs (i + bs) ! j) = None"
    proof (intro allI impI)
      fix j assume "j < length (batches vals bs (i + bs))"
      then have "omf (length (attempted st) + Suc j) (batches vals bs i ! Suc j) = None"
        using "1.prems" [rule_format, of "Suc j"] cs by simp
      then show "omf (length (attempted st2) + j) (batches vals bs (i + bs) ! j) = None"
        by (simp add: len2 cs)
    qed
    have dv: "(i + bs) div bs = Suc (i div bs)"
      using ne by (intro div_step) simp
    have "write_loop omf cn vals bs tb (i + bs) st2 =
        (Inr False,
         st2\<lparr>attempted := attempted st2 @ batches vals bs (i + bs),
             printed := printed st2 @ progress_lines tb ((i + bs) div bs + 1)
                          (length (batches vals bs (i + bs)))\<rparr>)"
      using "1.IH" [OF ne refl refl refl ok, folded st1_def, folded st2_def, OF p] .
    then show ?thesis
      unfolding step by (simp add: st2_def st1_def cs dv progress_lines_Suc)
  qed
qed


lemma batches_next:
  "\<not> (bs = 0 \<or> length vals \<le> i) \<Longrightarrow> j = i + bs \<Longrightarrow>
     batches vals bs i = take bs (drop i vals) # batches vals bs j"
  by (simp add: batches_Cons)

lemma batches_five:
  assumes "length vals = 5"
  shows "map length (batches vals 2 0) = [2, 2, 1]"
proof -
  have 1: "batches vals 2 0 = take 2 (drop 0 vals) # batches vals 2 2"
    using assms by (intro batches_next) simp_all
  have 2: "batches vals 2 2 = take 2 (drop 2 vals) # batches vals 2 4"
    using assms by (intro batches_next) simp_all
  have 3: "batches vals 2 4 = take 2 (drop 4 vals) # batches vals 2 6"
    using assms by (intro batches_next) simp_all
  have 4: "batches vals 2 6 = []"
    using assms by (subst batches.simps) simp
  show ?thesis unfolding 1 2 3 4 using assms by simp
qed

text \<open>
  C1. For a positive batch size the loop cuts the values into slices that are not empty,
  hold at most \<open>batch_size\<close> records each, and give back the values, in their order, when
  put end to end. These slices, in this order, are what the loop hands to
  \<open>send_time_series_data\<close> when every batch is accepted. Five records with a batch size
  of two give slices of sizes 2, 2 and 1.
\<close>

theorem batches_partition:
  assumes "0 < batch_size"
  shows "concat (batches vals batch_size 0) = vals \<and>
         (\<forall>b \<in> set (batches vals batch_size 0). b \<noteq> [] \<and> length b \<le> batch_size) \<and>
         ((\<forall>j<length (batches vals batch_size 0).
              omf (length (attempted st) + j) (batches vals batch_size 0 ! j) = None) \<longrightarrow>
          attempted (snd (write_loop omf cn vals batch_size tb 0 st)) =
            attempted st @ batches vals batch_size 0) \<and>
         (length vals = 5 \<and> batch_size = 2 \<longrightarrow>
          map length (batches vals batch_size 0) = [2, 2, 1])"
proof (intro conjI ballI impI)
  show "concat (batches vals batch_size 0) = vals"
    using batches_concat [OF assms, of vals 0] by simp
next
  fix b assume "b \<in> set (batches vals batch_size 0)"
  then show "b \<noteq> []" and "length b \<le> batch_size"
    using batches_bounded [OF assms] by blast+
next
  assume "\<forall>j<length (batches vals batch_size 0).
            omf (length (attempted st) + j) (batches vals batch_size 0 ! j) = None"
  then show "attempted (snd (write_loop omf cn vals batch_size tb 0 st)) =
               attempted st @ batches vals batch_size 0"
    by (simp add: write_loop_all_accepted)
next
  assume "length vals = 5 \<and> batch_size = 2"
  then show "map length (batches vals batch_size 0) = [2, 2, 1]"
    using batches_five [of vals] by simp
qed

theorem batches_partition_witness:
  "batches [1, 2, 3, 4, 5 :: nat] 2 0 = [[1, 2], [3, 4], [5]] \<and>
   concat (batches [1, 2, 3, 4, 5 :: nat] 2 0) = [1, 2, 3, 4, 5] \<and>
   map length (batches [1, 2, 3, 4, 5 :: nat] 2 0) = [2, 2, 1] \<and>
   attempted (snd (write_loop accept_all ''sine1'' [1, 2, 3, 4, 5] 2 3 0 fresh)) =
     [[1, 2], [3, 4], [5]]"
proof -
  have b: "batches [1, 2, 3, 4, 5 :: nat] 2 0 = [[1, 2], [3, 4], [5]]"
    by (simp add: batches.simps)
  have "(0::nat) < 2" by simp
  from batches_partition [OF this, of "[1, 2, 3, 4, 5]" accept_all fresh "''sine1''" 3]
  show ?thesis
    unfolding b by (simp add: accept_all_def fresh_def)
qed



section \<open>Properties of the hierarchy resolver\<close>

lemma create_or_get_element_bounded:
  "length (snd (create_or_get_element svc tr parent_webid name description is_root)) \<le>
     length tr + 4"
  by (simp add: create_or_get_element_def Let_def split: option.splits sum.splits)

text \<open>
  C6, as stated, fails: when the created element never becomes visible, the resolver
  raises a plain \<open>Exception\<close>, not a timeout, after one sleep of half a second and one
  single second lookup.
\<close>

theorem create_or_get_element_no_timeout:
  "create_or_get_element never_visible [] ''DB'' ''Model'' ''Model container'' False =
     (Inl (Exception ''Failed to create Model''),
      [GetElements False ''DB'' ''Model'',
       CreateElement False ''DB'' [(''Name'', ''Model''), (''Description'', ''Model container'')],
       Sleep 500,
       GetElements False ''DB'' ''Model'']) \<and>
   \<not> is_timeout
       (fst (create_or_get_element never_visible [] ''DB'' ''Model'' ''Model container'' False))"
  by (simp add: create_or_get_element_def try_existing_def never_visible_def items_def Let_def)

text \<open>
  C6, amended. When the first lookup does not find the name, the creation is accepted and
  the lookup that follows does not show the name either, the resolver raises
  \<open>Exception("Failed to create <name>")\<close>, having made exactly one second lookup
  after one fixed sleep of half a second. It never waits longer: every run consists of at
  most four actions, with no retry and no backoff parameter.
\<close>

theorem create_or_get_element_gives_up:
  assumes "try_existing svc tr is_root parent_webid name = None"
    and "create_element svc (tr @ [GetElements is_root parent_webid name]) is_root parent_webid
           [(''Name'', name), (''Description'', description)] = None"
    and "get_elements svc
           (tr @ [GetElements is_root parent_webid name,
                  CreateElement is_root parent_webid
                    [(''Name'', name), (''Description'', description)],
                  Sleep 500]) is_root parent_webid name = Inr result"
    and "find_named name (items result) = Inr None"
  shows "create_or_get_element svc tr parent_webid name description is_root =
           (Inl (Exception (''Failed to create '' @ name)),
            tr @ [GetElements is_root parent_webid name,
                  CreateElement is_root parent_webid
                    [(''Name'', name), (''Description'', description)],
                  Sleep 500,
                  GetElements is_root parent_webid name]) \<and>
         (\<forall>svc' tr' p n d r.
            length (snd (create_or_get_element svc' tr' p n d r)) \<le> length tr' + 4)"
  using assms create_or_get_element_bounded
  by (simp add: create_or_get_element_def Let_def)

theorem create_or_get_element_gives_up_witness:
  "create_or_get_element never_visible [] ''DB'' ''Model'' ''Model container'' False =
     (Inl (Exception ''Failed to create Model''),
      [GetElements False ''DB'' ''Model'',
       CreateElement False ''DB'' [(''Name'', ''Model''), (''Description'', ''Model container'')],
       Sleep 500,
       GetElements False ''DB'' ''Model''])"
proof -
  have h1: "try_existing never_visible [] False ''DB'' ''Model'' = None"
    by (simp add: try_existing_def never_visible_def items_def)
  have h2: "create_element never_visible ([] @ [GetElements False ''DB'' ''Model'']) False ''DB''
              [(''Name'', ''Model''), (''Description'', ''Model container'')] = None"
    by (simp add: never_visible_def)
  have h3: "get_elements never_visible
              ([] @ [GetElements False ''DB'' ''Model'',
                     CreateElement False ''DB''
                       [(''Name'', ''Model''), (''Description'', ''Model container'')],
                     Sleep 500]) False ''DB'' ''Model'' = Inr (Some [])"
    by (simp add: never_visible_def)
  have h4: "find_named ''Model'' (items (Some [])) = Inr None"
    by (simp add: items_def)
  show ?thesis
    using create_or_get_element_gives_up [OF h1 h2 h3 h4] by simp
qed

section \<open>Properties of the event frame model\<close>

lemma put_apply:
  "put r k v ex k' =
     (if k' = k then (if v \<noteq> PyNone \<or> \<not> ex then Some v else r k) else r k')"
  by (simp add: put_def)

lemma to_dict_foldl:
  "to_dict b e ex = foldl (\<lambda>r (k, f). put r k (f e) ex) (b e ex) event_fields"
  by (simp add: to_dict_def Let_def event_fields_def)

lemma foldl_put_other:
  "k \<notin> fst ` set fs \<Longrightarrow> foldl (\<lambda>r (k, f). put r k (f e) ex) r fs k = r k"
  by (induction fs arbitrary: r) (auto simp: put_apply)

lemma foldl_put_key:
  "distinct (map fst fs) \<Longrightarrow> (k, f) \<in> set fs \<Longrightarrow>
     foldl (\<lambda>r (k, f). put r k (f e) ex) r fs k =
       (if f e \<noteq> PyNone \<or> \<not> ex then Some (f e) else r k)"
proof (induction fs arbitrary: r)
  case Nil
  then show ?case by simp
next
  case (Cons p fs)
  obtain k' f' where p: "p = (k', f')" by (cases p)
  show ?case
  proof (cases "(k, f) = (k', f')")
    case True
    then have "k \<notin> fst ` set fs" using Cons.prems(1) p by auto
    then have "foldl (\<lambda>r (k, f). put r k (f e) ex) (put r k (f e) ex) fs k =
                 put r k (f e) ex k"
      by (rule foldl_put_other)
    also have "\<dots> = (if f e \<noteq> PyNone \<or> \<not> ex then Some (f e) else r k)"
      by (simp add: put_apply)
    finally show ?thesis using True p by simp
  next
    case False
    then have m: "(k, f) \<in> set fs" using Cons.prems(2) p by auto
    then have ne: "k \<noteq> k'" using Cons.prems(1) p by force
    have d: "distinct (map fst fs)" using Cons.prems(1) by simp
    have 1: "foldl (\<lambda>r (k, f). put r k (f e) ex) (put r k' (f' e) ex) fs k =
        (if f e \<noteq> PyNone \<or> \<not> ex then Some (f e) else put r k' (f' e) ex k)"
      by (rule Cons.IH [OF d m])
    have 2: "put r k' (f' e) ex k = r k"
      using ne by (simp add: put_apply)
    show ?thesis
      by (simp only: p foldl_Cons prod.case 1 2)
  qed
qed

lemma distinct_event_keys: "distinct (map fst event_fields)"
  by (simp add: event_fields_def)

lemma to_dict_other:
  assumes "k \<notin> set event_keys"
  shows "to_dict b e ex k = b e ex k"
  using assms by (simp add: to_dict_foldl foldl_put_other event_keys_def)

lemma to_dict_key:
  assumes "(k, f) \<in> set event_fields" and "b e ex k = None"
  shows "to_dict b e ex k = (if f e \<noteq> PyNone \<or> \<not> ex then Some (f e) else None)"
proof -
  have "to_dict b e ex k = (if f e \<noteq> PyNone \<or> \<not> ex then Some (f e) else b e ex k)"
    unfolding to_dict_foldl by (rule foldl_put_key [OF distinct_event_keys assms(1)])
  then show ?thesis by (simp only: assms(2))
qed

lemma to_dict_lookup:
  assumes "\<forall>k. k \<in> set event_keys \<longrightarrow> b e ex k = None"
  shows "\<forall>(k, f) \<in> set event_fields. dict_get (to_dict b e ex) k = f e"
proof (intro ballI, clarify)
  fix k f assume m: "(k, f) \<in> set event_fields"
  then have "k \<in> set event_keys" by (force simp: event_keys_def)
  then have "b e ex k = None" using assms by simp
  from to_dict_key [where b = b and e = e and ex = ex, OF m this]
  show "dict_get (to_dict b e ex) k = f e"
    by (simp add: dict_get_def)
qed

lemma to_dict_event_keys:
  assumes "\<forall>k. k \<in> set event_keys \<longrightarrow> b e True k = None"
  shows "\<forall>(k, f) \<in> set event_fields.
           to_dict b e True k = (if f e = PyNone then None else Some (f e))"
proof (intro ballI, clarify)
  fix k f assume m: "(k, f) \<in> set event_fields"
  then have "k \<in> set event_keys" by (force simp: event_keys_def)
  then have "b e True k = None" using assms by simp
  from to_dict_key [where b = b and e = e and ex = True, OF m this]
  show "to_dict b e True k = (if f e = PyNone then None else Some (f e))"
    by simp
qed

lemma base_to_dict_foldl:
  "PIWebAPIObject_to_dict e ex = foldl (\<lambda>r (k, f). put r k (f e) ex) Map.empty base_fields"
  by (simp add: PIWebAPIObject_to_dict_def Let_def base_fields_def)

lemma distinct_base_keys: "distinct (map fst base_fields)"
  by (simp add: base_fields_def)

lemma event_key_not_base: "k \<in> set event_keys \<Longrightarrow> k \<notin> fst ` set base_fields"
  by (auto simp: event_keys_def event_fields_def base_fields_def)

lemma base_key_not_event: "(k, f) \<in> set base_fields \<Longrightarrow> k \<notin> set event_keys"
  by (auto simp: event_keys_def event_fields_def base_fields_def)

lemma base_to_dict_key:
  assumes "(k, f) \<in> set base_fields"
  shows "dict_get (PIWebAPIObject_to_dict e ex) k = f e"
proof -
  have "PIWebAPIObject_to_dict e ex k =
          (if f e \<noteq> PyNone \<or> \<not> ex then Some (f e) else Map.empty k)"
    unfolding base_to_dict_foldl by (rule foldl_put_key [OF distinct_base_keys assms])
  then show ?thesis by (simp add: dict_get_def)
qed

lemma PIWebAPIObject_round_trip:
  "base_round_trip PIWebAPIObject_to_dict PIWebAPIObject_from_dict"
  unfolding base_round_trip_def
proof (intro conjI allI impI)
  fix e ex k
  assume "k \<in> set event_keys"
  then have "k \<notin> fst ` set base_fields" by (rule event_key_not_base)
  then show "PIWebAPIObject_to_dict e ex k = None"
    unfolding base_to_dict_foldl by (simp add: foldl_put_other)
next
  fix e ex d
  assume a: "\<forall>k. k \<notin> set event_keys \<longrightarrow> d k = PIWebAPIObject_to_dict e ex k"
  have "\<forall>(k, f) \<in> set base_fields. dict_get d k = f e"
  proof (intro ballI, clarify)
    fix k f assume m: "(k, f) \<in> set base_fields"
    then have "d k = PIWebAPIObject_to_dict e ex k"
      using a base_key_not_event by blast
    then have "dict_get d k = dict_get (PIWebAPIObject_to_dict e ex) k"
      by (simp add: dict_get_def)
    then show "dict_get d k = f e"
      by (simp only: base_to_dict_key [OF m])
  qed
  then have flds:
    "dict_get d ''WebId'' = web_id' e" "dict_get d ''Id'' = id' e"
    "dict_get d ''Name'' = name' e" "dict_get d ''Description'' = description' e"
    "dict_get d ''Path'' = path' e" "dict_get d ''Links'' = links e"
    unfolding base_fields_def by simp_all
  show "PIWebAPIObject_from_dict d = base_of e"
    unfolding PIWebAPIObject_from_dict_def base_of_def flds by (rule refl)
qed

text \<open>
  C9. Turning an event frame into a dictionary and back gives the same event frame, with
  or without \<open>exclude_none\<close>, provided the two methods of the base class, which
  \<open>EventFrame\<close> calls for the six inherited fields, do the same for those fields and leave
  the keys of \<open>EventFrame\<close> alone. With \<open>exclude_none\<close>, each of the fifteen fields of
  \<open>EventFrame\<close> that is \<open>None\<close> has no key in the dictionary, and each other one is
  stored under its PI Web API key.
\<close>

theorem event_frame_round_trip:
  assumes "base_round_trip super_to_dict base_from_dict"
  shows "from_dict base_from_dict (to_dict super_to_dict e exclude_none) = e \<and>
         (\<forall>(k, f) \<in> set event_fields.
            to_dict super_to_dict e True k = (if f e = PyNone then None else Some (f e)))"
proof
  have c: "\<forall>ex k. k \<in> set event_keys \<longrightarrow> super_to_dict e ex k = None"
    using assms by (simp add: base_round_trip_def)
  have "\<forall>k. k \<notin> set event_keys \<longrightarrow>
          to_dict super_to_dict e exclude_none k = super_to_dict e exclude_none k"
    by (simp add: to_dict_other)
  then have b: "base_from_dict (to_dict super_to_dict e exclude_none) = base_of e"
    using assms unfolding base_round_trip_def by blast
  have c1: "\<forall>k. k \<in> set event_keys \<longrightarrow> super_to_dict e exclude_none k = None"
    using c by simp
  have "\<forall>(k, f) \<in> set event_fields.
          dict_get (to_dict super_to_dict e exclude_none) k = f e"
    by (rule to_dict_lookup [where b = super_to_dict and e = e and ex = exclude_none, OF c1])
  then have flds:
    "dict_get (to_dict super_to_dict e exclude_none) ''AcknowledgeDate'' = acknowledge_date e"
    "dict_get (to_dict super_to_dict e exclude_none) ''AcknowledgedBy'' = acknowledged_by e"
    "dict_get (to_dict super_to_dict e exclude_none) ''AreValuesCaptured'' =
       are_values_captured e"
    "dict_get (to_dict super_to_dict e exclude_none) ''CanBeAcknowledged'' =
       can_be_acknowledged e"
    "dict_get (to_dict super_to_dict e exclude_none) ''CategoryNames'' = category_names e"
    "dict_get (to_dict super_to_dict e exclude_none) ''EndTime'' = end_time' e"
    "dict_get (to_dict super_to_dict e exclude_none) ''HasChildren'' = has_children e"
    "dict_get (to_dict super_to_dict e exclude_none) ''IsAcknowledged'' = is_acknowledged e"
    "dict_get (to_dict super_to_dict e exclude_none) ''IsAnnotation'' = is_annotation e"
    "dict_get (to_dict super_to_dict e exclude_none) ''IsLocked'' = is_locked e"
    "dict_get (to_dict super_to_dict e exclude_none) ''ReferencedElementWebId'' =
       referenced_element_web_id e"
    "dict_get (to_dict super_to_dict e exclude_none) ''SecurityDescriptor'' =
       security_descriptor e"
    "dict_get (to_dict super_to_dict e exclude_none) ''Severity'' = severity e"
    "dict_get (to_dict super_to_dict e exclude_none) ''StartTime'' = start_time' e"
    "dict_get (to_dict super_to_dict e exclude_none) ''TemplateName'' = template_name e"
    unfolding event_fields_def by simp_all
  show "from_dict base_from_dict (to_dict super_to_dict e exclude_none) = e"
    unfolding from_dict_def Let_def b flds
    by (simp add: base_of_def)
  have c2: "\<forall>k. k \<in> set event_keys \<longrightarrow> super_to_dict e True k = None"
    using c by simp
  show "\<forall>(k, f) \<in> set event_fields.
          to_dict super_to_dict e True k = (if f e = PyNone then None else Some (f e))"
    by (rule to_dict_event_keys [where b = super_to_dict and e = e, OF c2])
qed

theorem event_frame_round_trip_witness:
  "from_dict PIWebAPIObject_from_dict (to_dict PIWebAPIObject_to_dict example_frame True) =
     example_frame \<and>
   to_dict PIWebAPIObject_to_dict example_frame True ''Severity'' = Some (PyStr ''Major'') \<and>
   to_dict PIWebAPIObject_to_dict example_frame True ''EndTime'' = None"
proof -
  note r = event_frame_round_trip [OF PIWebAPIObject_round_trip, of example_frame True]
  have 1: "from_dict PIWebAPIObject_from_dict (to_dict PIWebAPIObject_to_dict example_frame True) =
             example_frame"
    using r by blast
  have 2: "to_dict PIWebAPIObject_to_dict example_frame True ''Severity'' =
             (if severity example_frame = PyNone then None else Some (severity example_frame))"
    using r by (simp add: event_fields_def)
  have 3: "to_dict PIWebAPIObject_to_dict example_frame True ''EndTime'' =
             (if end_time' example_frame = PyNone then None else Some (end_time' example_frame))"
    using r by (simp add: event_fields_def)
  show ?thesis
    using 1 2 3 by (simp add: example_frame_def)
qed

end
